theory Spec2Isabelle
  imports Complex_Main "HOL-Library.Multiset"
begin

section \<open>Data model (load-testing/stress-test.py, lines 19-47)\<close>

text \<open>
  A Python float is a \<open>real\<close>. The interpolation inside \<^verbatim>\<open>statistics.quantiles\<close>
  rounds every operation to the nearest double (\<open>round_double\<close> below), because the order
  of the two percentile fields depends on that rounding. The other float operations
  (the subtraction of two clock readings, the rates, the mean, the resource estimates) are
  exact: the statements about them do not depend on their last bit. Python ints are
  \<open>int\<close>; lengths and sizes, which are never negative, are \<open>nat\<close>.
\<close>

datatype py_error = ValueError string | StatisticsError string | IndexError string

text \<open>\<^verbatim>\<open>@dataclass class TestResult\<close>; \<open>error\<close> defaults to \<^verbatim>\<open>None\<close>, \<open>response_size\<close> to 0.\<close>

record TestResult =
  thread_id :: int
  start_time :: real
  end_time :: real
  duration :: real
  status_code :: int
  success :: bool
  error :: "string option"
  response_size :: nat

text \<open>\<^verbatim>\<open>@dataclass class StressTestReport\<close>.\<close>

record StressTestReport =
  total_requests :: nat
  successful_requests :: nat
  failed_requests :: nat
  success_rate :: real
  avg_response_time :: real
  min_response_time :: real
  max_response_time :: real
  p95_response_time :: real
  p99_response_time :: real
  max_concurrency_reached :: int
  total_duration :: real
  requests_per_second :: real
  cpu_usage_estimate :: real
  memory_usage_estimate :: int

section \<open>One trial (lines 67-109 and 135-177)\<close>

text \<open>
  What the network exchange of one trial does, as seen by the code.
  \<open>Response status sz\<close>: the response arrives with this status code and its body, of
  this length, is read. \<open>Unread status msg\<close>: the response arrives with this status
  code, and reading or decoding its body then raises an \<^verbatim>\<open>Exception\<close> whose
  \<^verbatim>\<open>str(e)\<close> is \<open>msg\<close>. \<open>Raised msg\<close>: no response arrives, the request raises
  such an exception (connection refused, timeout after 30 seconds, ...).
\<close>

datatype exchange = Response int nat | Unread int string | Raised string

text \<open>
  \<^verbatim>\<open>worker(thread_id)\<close> of \<^verbatim>\<open>run_threaded_stress_test\<close> up to the point where it
  appends: the \<^verbatim>\<open>TestResult\<close> it builds, given the two clock readings and the exchange.
  \<^verbatim>\<open>requests.post\<close> reads the body before it returns, so a body that cannot be read
  makes the call itself raise, inside the \<^verbatim>\<open>try\<close>.
\<close>

fun worker :: "int \<Rightarrow> real \<Rightarrow> real \<Rightarrow> exchange \<Rightarrow> TestResult" where
  "worker tid t0 t1 (Response status sz) =
     \<lparr> thread_id = tid, start_time = t0, end_time = t1, duration = t1 - t0,
       status_code = status, success = (status = 200), error = None,
       response_size = sz \<rparr>"
| "worker tid t0 t1 (Unread status msg) =
     \<lparr> thread_id = tid, start_time = t0, end_time = t1, duration = t1 - t0,
       status_code = 0, success = False, error = Some msg,
       response_size = 0 \<rparr>"
| "worker tid t0 t1 (Raised msg) =
     \<lparr> thread_id = tid, start_time = t0, end_time = t1, duration = t1 - t0,
       status_code = 0, success = False, error = Some msg,
       response_size = 0 \<rparr>"

text \<open>
  \<^verbatim>\<open>single_request(session, thread_id)\<close>, the coroutine of the fan-out discipline.
  \<^verbatim>\<open>await response.text()\<close> (line 85) stands inside the \<^verbatim>\<open>try\<close>, after the status
  is known: when it raises, the \<^verbatim>\<open>except\<close> branch builds the result and the status
  received is dropped.
\<close>

fun single_request :: "int \<Rightarrow> real \<Rightarrow> real \<Rightarrow> exchange \<Rightarrow> TestResult" where
  "single_request tid t0 t1 (Response status sz) =
     \<lparr> thread_id = tid, start_time = t0, end_time = t1, duration = t1 - t0,
       status_code = status, success = (status = 200), error = None,
       response_size = sz \<rparr>"
| "single_request tid t0 t1 (Unread status msg) =
     \<lparr> thread_id = tid, start_time = t0, end_time = t1, duration = t1 - t0,
       status_code = 0, success = False, error = Some msg,
       response_size = 0 \<rparr>"
| "single_request tid t0 t1 (Raised msg) =
     \<lparr> thread_id = tid, start_time = t0, end_time = t1, duration = t1 - t0,
       status_code = 0, success = False, error = Some msg,
       response_size = 0 \<rparr>"

section \<open>Library functions the report generator calls\<close>

definition bind_err :: "py_error + 'a \<Rightarrow> ('a \<Rightarrow> py_error + 'b) \<Rightarrow> py_error + 'b" where
  "bind_err r f = (case r of Inl e \<Rightarrow> Inl e | Inr v \<Rightarrow> f v)"

text \<open>Python's \<^verbatim>\<open>xs[i]\<close> for a non-negative index.\<close>

definition py_index :: "'a list \<Rightarrow> nat \<Rightarrow> py_error + 'a" where
  "py_index xs i =
     (if i < length xs then Inr (xs ! i) else Inl (IndexError ''list index out of range''))"

text \<open>Python's built-in \<^verbatim>\<open>max\<close> and \<^verbatim>\<open>min\<close> on a list; both raise on an empty one.\<close>

fun py_max :: "real list \<Rightarrow> py_error + real" where
  "py_max [] = Inl (ValueError ''max() arg is an empty sequence'')"
| "py_max (x # xs) = Inr (fold max xs x)"

fun py_min :: "real list \<Rightarrow> py_error + real" where
  "py_min [] = Inl (ValueError ''min() arg is an empty sequence'')"
| "py_min (x # xs) = Inr (fold min xs x)"

text \<open>\<^verbatim>\<open>statistics.mean\<close>: the exact sum of the data divided by their number.\<close>

definition mean :: "real list \<Rightarrow> py_error + real" where
  "mean data =
     (if length data < 1 then Inl (StatisticsError ''mean requires at least one data point'')
      else Inr (sum_list data / real (length data)))"

text \<open>
  Double precision arithmetic: the result of an operation is the exact result rounded to
  the nearest number with a 53 bit significand, ties going to the even significand.
  \<open>round_half_even\<close> rounds to an integer that way, \<open>pow2 k\<close> is \<open>2\<close> to the power
  \<open>k\<close>, and \<open>round_double x\<close> scales \<open>x\<close> by its binary exponent so that the
  significand has 53 bits, rounds, and scales back. The exponent is not bounded: values
  beyond the range of a double (overflow, subnormal numbers) and NaN are left out.
\<close>

definition round_half_even :: "real \<Rightarrow> int" where
  "round_half_even y =
     (let f = \<lfloor>y\<rfloor>; r = y - of_int f
      in if r < 1 / 2 then f else if 1 / 2 < r then f + 1
         else if even f then f else f + 1)"

definition pow2 :: "int \<Rightarrow> real" where
  "pow2 k = (if 0 \<le> k then 2 ^ nat k else 1 / 2 ^ nat (- k))"

definition round_double :: "real \<Rightarrow> real" where
  "round_double x =
     (if x = 0 then 0
      else let e = \<lfloor>log 2 \<bar>x\<bar>\<rfloor>
           in of_int (round_half_even (x * pow2 (52 - e))) * pow2 (e - 52))"

text \<open>
  \<^verbatim>\<open>statistics.quantiles(data, n=n)\<close> of the standard library (CPython 3.8 to 3.12),
  with its default \<^verbatim>\<open>method='exclusive'\<close>: the \<open>n - 1\<close> cut points, each interpolated
  linearly between two neighbours of the sorted data. \<open>cut_point\<close> is the body of its
  loop for one \<open>i\<close>. After the clamp \<open>1 \<le> j \<le> ld - 1\<close>, so both reads are in range.
  \<open>j\<close> and \<open>delta\<close> are exact integers; the two products, the sum and the division
  of \<^verbatim>\<open>(data[j - 1] * (n - delta) + data[j] * delta) / n\<close> are float operations, each
  rounded.
\<close>

definition cut_point :: "real list \<Rightarrow> int \<Rightarrow> int \<Rightarrow> real" where
  "cut_point data n i =
     (let ld = int (length data);
          m = ld + 1;
          j0 = i * m div n;
          j = (if j0 < 1 then 1 else if j0 > ld - 1 then ld - 1 else j0);
          delta = i * m - j * n
      in round_double
           (round_double
              (round_double (data ! nat (j - 1) * real_of_int (n - delta)) +
               round_double (data ! nat j * real_of_int delta))
            / real_of_int n))"

definition quantiles :: "real list \<Rightarrow> int \<Rightarrow> py_error + real list" where
  "quantiles data n =
     (if n < 1 then Inl (StatisticsError ''n must be at least 1'')
      else if length (sort data) < 2
        then Inl (StatisticsError ''must have at least two data points'')
      else Inr (map (cut_point (sort data) n) [1..n - 1]))"

section \<open>The report generator (lines 201-234)\<close>

text \<open>
  \<^verbatim>\<open>generate_report(self, results, test_duration)\<close>; \<open>max_workers\<close> is the field
  \<^verbatim>\<open>self.max_workers\<close>, the only part of the tester the method reads.
\<close>

definition generate_report ::
    "int \<Rightarrow> TestResult list \<Rightarrow> real \<Rightarrow> py_error + StressTestReport" where
  "generate_report max_workers results test_duration =
     (if results = [] then Inl (ValueError ''No results to analyze'')
      else
        let successful = filter success results;
            failed = filter (\<lambda>r. \<not> success r) results;
            durations = map duration (filter success results)
        in
        bind_err (if length durations \<ge> 20
              then bind_err (quantiles durations 20) (\<lambda>qs. py_index qs 18)
              else if durations \<noteq> [] then py_max durations else Inr 0) (\<lambda>p95.
        bind_err (if length durations \<ge> 100
              then bind_err (quantiles durations 100) (\<lambda>qs. py_index qs 98)
              else if durations \<noteq> [] then py_max durations else Inr 0) (\<lambda>p99.
        bind_err (if durations \<noteq> [] then mean durations else Inr 0) (\<lambda>avg.
        bind_err (if durations \<noteq> [] then py_min durations else Inr 0) (\<lambda>mn.
        bind_err (if durations \<noteq> [] then py_max durations else Inr 0) (\<lambda>mx.
        Inr \<lparr> total_requests = length results,
              successful_requests = length successful,
              failed_requests = length failed,
              success_rate = real (length successful) / real (length results) * 100,
              avg_response_time = avg,
              min_response_time = mn,
              max_response_time = mx,
              p95_response_time = p95,
              p99_response_time = p99,
              max_concurrency_reached = min (int (length results)) max_workers,
              total_duration = test_duration,
              requests_per_second =
                (if test_duration > 0 then real (length results) / test_duration else 0),
              cpu_usage_estimate = real (length results) * 0.15,
              memory_usage_estimate = int (length results) * 50 \<rparr>))))))"

section \<open>The batched executor (lines 131-199)\<close>

text \<open>
  What the outside world decides for the trial with a given thread id during one run: the
  clock reading before the exchange, the clock reading after it, and the exchange.
\<close>

type_synonym env = "nat \<Rightarrow> real \<times> real \<times> exchange"

definition worker_result :: "env \<Rightarrow> nat \<Rightarrow> TestResult" where
  "worker_result env t = (case env t of (t0, t1, ex) \<Rightarrow> worker (int t) t0 t1 ex)"

text \<open>
  \<^verbatim>\<open>run_threaded_stress_test\<close> runs worker threads beside the main thread, so it is a
  step relation over all interleavings rather than a function. \<open>pc\<close> says where the main
  thread stands: in the \<^verbatim>\<open>for\<close> loop about to start a thread (\<open>Spawn\<close>), inside the
  joins of lines 191-192 (\<open>Join\<close>), inside the joins of lines 196-197 (\<open>FinalJoin\<close>), or
  past \<^verbatim>\<open>return self.results\<close> (\<open>Returned\<close>).
\<close>

datatype pc = Spawn | Join | FinalJoin | Returned

text \<open>
  \<open>self_results\<close> is the tester's field \<^verbatim>\<open>self.results\<close>, which outlives the call;
  \<open>next_i\<close> is the loop variable \<^verbatim>\<open>i\<close> of the next iteration; \<open>threads\<close> is the
  local list of that name; \<open>alive\<close> holds the started threads that have not yet appended
  their result, which are the trials in flight.
\<close>

record run_state =
  self_results :: "TestResult list"
  next_i :: nat
  threads :: "nat list"
  alive :: "nat set"
  pc :: pc

text \<open>A call starts with whatever \<^verbatim>\<open>self.results\<close> holds and with fresh locals.\<close>

definition init :: "TestResult list \<Rightarrow> run_state" where
  "init rs0 = \<lparr> self_results = rs0, next_i = 0, threads = [], alive = {}, pc = Spawn \<rparr>"

text \<open>
  \<open>start\<close>: one iteration of the loop up to the test of line 190: the thread is created,
  appended to \<open>threads\<close> and started. \<open>finish\<close>: a thread in flight ends its exchange,
  appends its result under the lock and dies. \<open>joined\<close>: every \<^verbatim>\<open>t.join()\<close> of lines
  191-192 has returned, and \<open>threads\<close> is reset. \<open>loop_exit\<close>: \<^verbatim>\<open>range(num_requests)\<close>
  is exhausted. \<open>return\<close>: the joins of lines 196-197 have returned and the call returns
  \<open>self_results\<close>; its locals are gone.
\<close>

inductive step :: "int \<Rightarrow> int \<Rightarrow> env \<Rightarrow> run_state \<Rightarrow> run_state \<Rightarrow> bool"
  for num_requests concurrency env where
  start:
    "pc s = Spawn \<Longrightarrow> int (next_i s) < num_requests \<Longrightarrow>
     step num_requests concurrency env s
       (s\<lparr> next_i := Suc (next_i s),
           threads := threads s @ [next_i s],
           alive := insert (next_i s) (alive s),
           pc := (if int (length (threads s @ [next_i s])) \<ge> concurrency
                  then Join else Spawn) \<rparr>)"
| finish:
    "t \<in> alive s \<Longrightarrow>
     step num_requests concurrency env s
       (s\<lparr> self_results := self_results s @ [worker_result env t],
           alive := alive s - {t} \<rparr>)"
| joined:
    "pc s = Join \<Longrightarrow> set (threads s) \<inter> alive s = {} \<Longrightarrow>
     step num_requests concurrency env s (s\<lparr> threads := [], pc := Spawn \<rparr>)"
| loop_exit:
    "pc s = Spawn \<Longrightarrow> \<not> int (next_i s) < num_requests \<Longrightarrow>
     step num_requests concurrency env s (s\<lparr> pc := FinalJoin \<rparr>)"
| return:
    "pc s = FinalJoin \<Longrightarrow> set (threads s) \<inter> alive s = {} \<Longrightarrow>
     step num_requests concurrency env s (s\<lparr> threads := [], pc := Returned \<rparr>)"

text \<open>
  \<open>run_threaded_stress_test n c env rs0 rs\<close>: started with \<^verbatim>\<open>self.results = rs0\<close>, the
  call can return \<open>rs\<close> (under some schedule of the threads).
\<close>

definition run_threaded_stress_test ::
    "int \<Rightarrow> int \<Rightarrow> env \<Rightarrow> TestResult list \<Rightarrow> TestResult list \<Rightarrow> bool" where
  "run_threaded_stress_test num_requests concurrency env rs0 rs =
     (\<exists>s. rtranclp (step num_requests concurrency env) (init rs0) s \<and>
          pc s = Returned \<and> self_results s = rs)"

section \<open>The fan-out executor (lines 111-129)\<close>

definition request_result :: "env \<Rightarrow> nat \<Rightarrow> TestResult" where
  "request_result env t = (case env t of (t0, t1, ex) \<Rightarrow> single_request (int t) t0 t1 ex)"

text \<open>
  \<^verbatim>\<open>run_concurrent_requests\<close>. \<^verbatim>\<open>asyncio.gather\<close> hands the results back in the order
  of its arguments, whatever the order of completion, so the result is a function of the
  trials. \<^verbatim>\<open>asyncio.Semaphore(concurrency)\<close> raises \<^verbatim>\<open>ValueError\<close> for a negative
  value, and with value 0 no request is ever admitted: then the call does not return,
  which is \<open>None\<close>.
\<close>

definition run_concurrent_requests ::
    "int \<Rightarrow> int \<Rightarrow> env \<Rightarrow> (py_error + TestResult list) option" where
  "run_concurrent_requests num_requests concurrency env =
     (if concurrency < 0
        then Some (Inl (ValueError ''Semaphore initial value must be >= 0''))
      else if concurrency = 0 \<and> 0 < num_requests then None
      else Some (Inr (map (request_result env) [0..<nat num_requests])))"

section \<open>Invariant and variant of the batched executor\<close>

text \<open>
  What holds in every reachable state of a run started with \<^verbatim>\<open>self.results = rs0\<close>:
  the threads in flight belong to the current batch and were started by this run; the
  batch is bounded by the concurrency (by 1 when the concurrency is below 1); and
  \<open>self_results\<close> is \<open>rs0\<close> followed by the results of exactly the threads that were
  started and are no longer in flight.
\<close>

definition run_inv :: "int \<Rightarrow> int \<Rightarrow> env \<Rightarrow> TestResult list \<Rightarrow> run_state \<Rightarrow> bool" where
  "run_inv N C env rs0 s =
     (finite (alive s) \<and> alive s \<subseteq> set (threads s) \<and> alive s \<subseteq> {..<next_i s} \<and>
      int (next_i s) \<le> max N 0 \<and>
      int (length (threads s)) \<le> max C 1 \<and>
      (pc s = Spawn \<longrightarrow> int (length (threads s)) < max C 1) \<and>
      (pc s = Join \<longrightarrow> C \<le> int (length (threads s))) \<and>
      (pc s = FinalJoin \<longrightarrow> N \<le> int (next_i s)) \<and>
      (pc s = Returned \<longrightarrow> N \<le> int (next_i s) \<and> alive s = {}) \<and>
      (\<exists>new. self_results s = rs0 @ new \<and>
         mset new = image_mset (worker_result env) (mset_set ({..<next_i s} - alive s))))"

text \<open>A bound on the number of steps a run can still take.\<close>

definition steps_left :: "int \<Rightarrow> run_state \<Rightarrow> nat" where
  "steps_left N s =
     3 * (nat N - next_i s) + card (alive s) +
     (case pc s of Spawn \<Rightarrow> 2 | Join \<Rightarrow> 3 | FinalJoin \<Rightarrow> 1 | Returned \<Rightarrow> 0)"

section \<open>Facts about the library functions and the report generator\<close>

lemma quantiles_index:
  assumes "2 \<le> length ds" "1 \<le> i" "i < n"
  shows "bind_err (quantiles ds n) (\<lambda>qs. py_index qs (nat (i - 1))) = Inr (cut_point (sort ds) n i)"
  using assms by (simp add: quantiles_def bind_err_def py_index_def nth_upto)

lemma p95_value:
  "20 \<le> length ds \<Longrightarrow>
     bind_err (quantiles ds 20) (\<lambda>qs. py_index qs 18) = Inr (cut_point (sort ds) 20 19)"
  using quantiles_index [of ds 19 20] by simp

lemma p99_value:
  "100 \<le> length ds \<Longrightarrow>
     bind_err (quantiles ds 100) (\<lambda>qs. py_index qs 98) = Inr (cut_point (sort ds) 100 99)"
  using quantiles_index [of ds 99 100] by simp

lemma py_max_eq: "ds \<noteq> [] \<Longrightarrow> py_max ds = Inr (Max (set ds))"
proof (cases ds)
  case (Cons a as)
  then show ?thesis using Max.set_eq_fold [of a as] by simp
qed simp

lemma py_min_eq: "ds \<noteq> [] \<Longrightarrow> py_min ds = Inr (Min (set ds))"
proof (cases ds)
  case (Cons a as)
  then show ?thesis using Min.set_eq_fold [of a as] by simp
qed simp

lemma mean_eq: "ds \<noteq> [] \<Longrightarrow> mean ds = Inr (sum_list ds / real (length ds))"
  by (cases ds) (simp_all add: mean_def)

lemma bind_err_Inr [simp]: "bind_err (Inr v) f = f v"
  by (simp add: bind_err_def)

lemma generate_report_nonempty:
  assumes "results \<noteq> []"
  shows "generate_report mw results d =
     Inr \<lparr> total_requests = length results,
           successful_requests = length (filter success results),
           failed_requests = length (filter (\<lambda>r. \<not> success r) results),
           success_rate =
             real (length (filter success results)) / real (length results) * 100,
           avg_response_time =
             (if map duration (filter success results) \<noteq> []
              then sum_list (map duration (filter success results))
                     / real (length (map duration (filter success results)))
              else 0),
           min_response_time =
             (if map duration (filter success results) \<noteq> []
              then Min (set (map duration (filter success results))) else 0),
           max_response_time =
             (if map duration (filter success results) \<noteq> []
              then Max (set (map duration (filter success results))) else 0),
           p95_response_time =
             (if 20 \<le> length (map duration (filter success results))
              then cut_point (sort (map duration (filter success results))) 20 19
              else if map duration (filter success results) \<noteq> []
              then Max (set (map duration (filter success results))) else 0),
           p99_response_time =
             (if 100 \<le> length (map duration (filter success results))
              then cut_point (sort (map duration (filter success results))) 100 99
              else if map duration (filter success results) \<noteq> []
              then Max (set (map duration (filter success results))) else 0),
           max_concurrency_reached = min (int (length results)) mw,
           total_duration = d,
           requests_per_second = (if d > 0 then real (length results) / d else 0),
           cpu_usage_estimate = real (length results) * 0.15,
           memory_usage_estimate = int (length results) * 50 \<rparr>"
proof -
  let ?ds = "map duration (filter success results)"
  have mx: "(if ?ds \<noteq> [] then py_max ?ds else Inr 0)
        = Inr (if ?ds \<noteq> [] then Max (set ?ds) else 0)"
    using py_max_eq [of ?ds] by simp
  have p95: "(if length ?ds \<ge> 20
              then bind_err (quantiles ?ds 20) (\<lambda>qs. py_index qs 18)
              else Inr (if ?ds \<noteq> [] then Max (set ?ds) else 0))
        = Inr (if 20 \<le> length ?ds then cut_point (sort ?ds) 20 19
               else if ?ds \<noteq> [] then Max (set ?ds) else 0)"
    using p95_value [of ?ds] by (simp del: length_map)
  have p99: "(if length ?ds \<ge> 100
              then bind_err (quantiles ?ds 100) (\<lambda>qs. py_index qs 98)
              else Inr (if ?ds \<noteq> [] then Max (set ?ds) else 0))
        = Inr (if 100 \<le> length ?ds then cut_point (sort ?ds) 100 99
               else if ?ds \<noteq> [] then Max (set ?ds) else 0)"
    using p99_value [of ?ds] by (simp del: length_map)
  have av: "(if ?ds \<noteq> [] then mean ?ds else Inr 0)
        = Inr (if ?ds \<noteq> [] then sum_list ?ds / real (length ?ds) else 0)"
    using mean_eq [of ?ds] by (simp del: length_map)
  have mn: "(if ?ds \<noteq> [] then py_min ?ds else Inr 0)
        = Inr (if ?ds \<noteq> [] then Min (set ?ds) else 0)"
    using py_min_eq [of ?ds] by simp
  have "generate_report mw results d =
      bind_err (if length ?ds \<ge> 20
              then bind_err (quantiles ?ds 20) (\<lambda>qs. py_index qs 18)
              else if ?ds \<noteq> [] then py_max ?ds else Inr 0) (\<lambda>p95.
        bind_err (if length ?ds \<ge> 100
              then bind_err (quantiles ?ds 100) (\<lambda>qs. py_index qs 98)
              else if ?ds \<noteq> [] then py_max ?ds else Inr 0) (\<lambda>p99.
        bind_err (if ?ds \<noteq> [] then mean ?ds else Inr 0) (\<lambda>avg.
        bind_err (if ?ds \<noteq> [] then py_min ?ds else Inr 0) (\<lambda>mn.
        bind_err (if ?ds \<noteq> [] then py_max ?ds else Inr 0) (\<lambda>mx.
        Inr \<lparr> total_requests = length results,
              successful_requests = length (filter success results),
              failed_requests = length (filter (\<lambda>r. \<not> success r) results),
              success_rate =
                real (length (filter success results)) / real (length results) * 100,
              avg_response_time = avg,
              min_response_time = mn,
              max_response_time = mx,
              p95_response_time = p95,
              p99_response_time = p99,
              max_concurrency_reached = min (int (length results)) mw,
              total_duration = d,
              requests_per_second = (if d > 0 then real (length results) / d else 0),
              cpu_usage_estimate = real (length results) * 0.15,
              memory_usage_estimate = int (length results) * 50 \<rparr>)))))"
    using assms unfolding generate_report_def Let_def by (simp only: if_False)
  then show ?thesis
    unfolding mx av mn unfolding p95 p99 bind_err_Inr by simp
qed


lemma generate_report_empty:
  "generate_report mw [] d = Inl (ValueError ''No results to analyze'')"
  by (simp add: generate_report_def)

lemma generate_report_Inr_nonempty:
  "generate_report mw results d = Inr rep \<Longrightarrow> results \<noteq> []"
  by (auto simp: generate_report_empty)

lemma mset_durations:
  assumes "mset results = mset results'"
  shows "mset (map duration (filter success results)) =
         mset (map duration (filter success results'))"
proof -
  have "mset (filter success results) = mset (filter success results')"
    using assms by (metis mset_filter)
  then show ?thesis
    by (metis mset_map)
qed

lemma mset_eq_sort: "mset (xs :: real list) = mset ys \<Longrightarrow> sort xs = sort ys"
  by (simp add: properties_for_sort)

lemma mset_eq_sum_list: "mset (xs :: real list) = mset ys \<Longrightarrow> sum_list xs = sum_list ys"
  by (metis sum_mset_sum_list)

lemma mset_eq_nil: "mset xs = mset ys \<Longrightarrow> (xs = []) = (ys = [])"
  by (metis mset_zero_iff)

lemma q99: "2 \<le> length ds \<Longrightarrow>
     bind_err (quantiles ds 100) (\<lambda>qs. py_index qs 98) = Inr (cut_point (sort ds) 100 99)"
  using quantiles_index [of ds 99 100] by simp

lemma upto_1_20: "[1..20] = [1,2,3,4,5,6,7,8,9,10,11,12,13,14,15,16,17,18,19,20::int]"
  by code_simp

lemma interpolate_bounds:
  fixes a b :: real and dl n :: int
  assumes "a \<le> b" "0 \<le> dl" "dl \<le> n" "0 < n"
  shows "a \<le> (a * real_of_int (n - dl) + b * real_of_int dl) / real_of_int n"
    and "(a * real_of_int (n - dl) + b * real_of_int dl) / real_of_int n \<le> b"
proof -
  have n: "0 < real_of_int n" using assms by simp
  have "0 \<le> (b - a) * real_of_int dl"
    using assms by simp
  then have "a * real_of_int n \<le> a * real_of_int (n - dl) + b * real_of_int dl"
    by (simp add: algebra_simps)
  then show "a \<le> (a * real_of_int (n - dl) + b * real_of_int dl) / real_of_int n"
    using n by (simp add: pos_le_divide_eq)
  have "0 \<le> (b - a) * real_of_int (n - dl)"
    using assms by simp
  then have "a * real_of_int (n - dl) + b * real_of_int dl \<le> b * real_of_int n"
    by (simp add: algebra_simps)
  then show "(a * real_of_int (n - dl) + b * real_of_int dl) / real_of_int n \<le> b"
    using n by (simp add: pos_divide_le_eq)
qed

lemma interpolate_mono:
  fixes a b :: real and d1 d2 :: int
  assumes "a \<le> b" "5 * d1 \<le> d2"
  shows "(a * real_of_int (20 - d1) + b * real_of_int d1) / real_of_int 20
       \<le> (a * real_of_int (100 - d2) + b * real_of_int d2) / real_of_int 100"
proof -
  have "real_of_int (5 * d1) \<le> real_of_int d2"
    using assms(2) by (simp only: of_int_le_iff)
  then have "0 \<le> (b - a) * (real_of_int d2 - 5 * real_of_int d1)"
    using assms(1) by simp
  then have "5 * ((b - a) * real_of_int d1) \<le> (b - a) * real_of_int d2"
    by (simp add: algebra_simps)
  then have "(b - a) * real_of_int d1 / 20 \<le> (b - a) * real_of_int d2 / 100"
    by linarith
  moreover have "(a * real_of_int (20 - d1) + b * real_of_int d1) / real_of_int 20
      = a + (b - a) * real_of_int d1 / 20"
    by (simp add: field_simps)
  moreover have "(a * real_of_int (100 - d2) + b * real_of_int d2) / real_of_int 100
      = a + (b - a) * real_of_int d2 / 100"
    by (simp add: field_simps)
  ultimately show ?thesis
    by linarith
qed

lemma div_mod_bounds:
  fixes x m k :: int
  assumes "0 < k" "k \<le> x" "x < k * (m - 1)"
  shows "1 \<le> x div k" "x div k \<le> m - 2" "0 \<le> x mod k" "x mod k < k"
    "x - x div k * k = x mod k"
proof -
  define q where "q = x div k"
  define r where "r = x mod k"
  have x: "x = k * q + r" by (simp add: q_def r_def)
  have r: "0 \<le> r" "r < k" using assms(1) by (simp_all add: r_def)
  show "0 \<le> x mod k" "x mod k < k" using r by (simp_all add: r_def)
  have "k * 1 \<le> k * q + r" using assms(2) x by simp
  then have "k * 1 < k * (q + 1)" using r by (simp add: algebra_simps)
  then have "1 < q + 1" using assms(1) by (simp only: mult_less_cancel_left_pos)
  then show "1 \<le> x div k" by (simp add: q_def)
  have "k * q < k * (m - 1)" using assms(3) x r by linarith
  then have "q < m - 1" using assms(1) by (simp only: mult_less_cancel_left_pos)
  then show "x div k \<le> m - 2" by (simp add: q_def)
  show "x - x div k * k = x mod k" by (simp add: minus_div_mult_eq_mod)
qed

lemma pow2_powr: "pow2 k = 2 powr of_int k"
proof (cases "0 \<le> k")
  case True
  then show ?thesis
    by (simp add: pow2_def powr_realpow [symmetric])
next
  case False
  then have k: "real_of_int k = - real (nat (- k))" by simp
  have "(2::real) powr - real (nat (- k)) = 1 / 2 powr real (nat (- k))"
    by (rule powr_minus_divide)
  also have "\<dots> = 1 / 2 ^ nat (- k)"
    by (simp only: powr_realpow zero_less_numeral)
  finally show ?thesis
    using False by (simp only: pow2_def k if_False)
qed

lemma round_half_even_err: "\<bar>of_int (round_half_even y) - y\<bar> \<le> 1 / 2"
proof -
  have "of_int \<lfloor>y\<rfloor> \<le> y" "y < of_int \<lfloor>y\<rfloor> + 1" by linarith+
  then show ?thesis
    unfolding round_half_even_def Let_def by (auto simp: abs_le_iff)
qed

lemma round_double_err: "\<bar>round_double x - x\<bar> \<le> \<bar>x\<bar> / 2 ^ 53"
proof (cases "x = 0")
  case True
  then show ?thesis by (simp add: round_double_def)
next
  case False
  define e where "e = \<lfloor>log 2 \<bar>x\<bar>\<rfloor>"
  define p where "p = pow2 (e - 52)"
  define q where "q = pow2 (52 - e)"
  have p: "0 < p" by (simp add: p_def pow2_powr)
  have pq: "q * p = 1"
    unfolding p_def q_def pow2_powr by (simp add: powr_add [symmetric])
  have fl: "round_double x = of_int (round_half_even (x * q)) * p"
    using False by (simp add: round_double_def Let_def e_def p_def q_def)
  have "of_int (round_half_even (x * q)) * p - x = (of_int (round_half_even (x * q)) - x * q) * p"
    using pq by (simp add: algebra_simps)
  then have "\<bar>round_double x - x\<bar> = \<bar>of_int (round_half_even (x * q)) - x * q\<bar> * p"
    using p by (simp add: fl abs_mult)
  also have "\<dots> \<le> 1 / 2 * p"
    using p round_half_even_err [of "x * q"] by (intro mult_right_mono) simp_all
  also have "\<dots> \<le> \<bar>x\<bar> / 2 ^ 53"
  proof -
    have "of_int e \<le> log 2 \<bar>x\<bar>" by (simp add: e_def)
    then have "(2::real) powr of_int e \<le> 2 powr log 2 \<bar>x\<bar>"
      by (simp only: powr_le_cancel_iff)
    also have "\<dots> = \<bar>x\<bar>" using False by simp
    finally have "2 powr of_int e \<le> \<bar>x\<bar>" .
    moreover have "p = 2 powr of_int e / 2 ^ 52"
      unfolding p_def pow2_powr by (simp add: powr_diff)
    ultimately show ?thesis by simp
  qed
  finally show ?thesis .
qed

lemma round_double_eval:
  assumes "x \<noteq> 0" "pow2 e \<le> \<bar>x\<bar>" "\<bar>x\<bar> < pow2 (e + 1)"
    and "round_half_even (x * pow2 (52 - e)) = m"
  shows "round_double x = of_int m * pow2 (e - 52)"
proof -
  have "\<lfloor>log 2 \<bar>x\<bar>\<rfloor> = e"
    using assms(1-3) by (simp add: floor_log_eq_powr_iff pow2_powr)
  then show ?thesis
    using assms(1,4) by (simp add: round_double_def)
qed

lemma interpolate_rounding:
  fixes a b M k1 k2 n :: real
  assumes "\<bar>a\<bar> \<le> M" "\<bar>b\<bar> \<le> M" "0 \<le> k1" "0 \<le> k2" "k1 + k2 = n" "0 < n"
  shows "\<bar>round_double (round_double (round_double (a * k1) + round_double (b * k2)) / n)
          - (a * k1 + b * k2) / n\<bar> \<le> M / 2 ^ 50"
proof -
  define p1 where "p1 = a * k1"
  define p2 where "p2 = b * k2"
  define t1 where "t1 = round_double p1"
  define t2 where "t2 = round_double p2"
  define T where "T = t1 + t2"
  define X where "X = p1 + p2"
  define s where "s = round_double T"
  define sn where "sn = s / n"
  define Xn where "Xn = X / n"
  define r where "r = round_double sn"
  define w1 where "w1 = M * k1"
  define w2 where "w2 = M * k2"
  define W where "W = M * n"
  have pw: "(2::real) ^ 53 = 9007199254740992" "(2::real) ^ 50 = 1125899906842624"
    by simp_all
  have M: "0 \<le> M" using assms(1) by linarith
  have W: "w1 + w2 = W"
    unfolding W_def w1_def w2_def assms(5) [symmetric] by (simp add: algebra_simps)
  have "\<bar>p1\<bar> = \<bar>a\<bar> * k1" using assms(3) by (simp add: p1_def abs_mult)
  also have "\<dots> \<le> w1" unfolding w1_def using assms(1,3) by (intro mult_right_mono)
  finally have x1: "\<bar>p1\<bar> \<le> w1" .
  have "\<bar>p2\<bar> = \<bar>b\<bar> * k2" using assms(4) by (simp add: p2_def abs_mult)
  also have "\<dots> \<le> w2" unfolding w2_def using assms(2,4) by (intro mult_right_mono)
  finally have x2: "\<bar>p2\<bar> \<le> w2" .
  have e1: "\<bar>t1 - p1\<bar> \<le> \<bar>p1\<bar> / 9007199254740992"
    unfolding t1_def pw [symmetric] by (rule round_double_err)
  have e2: "\<bar>t2 - p2\<bar> \<le> \<bar>p2\<bar> / 9007199254740992"
    unfolding t2_def pw [symmetric] by (rule round_double_err)
  have e3: "\<bar>s - T\<bar> \<le> \<bar>T\<bar> / 9007199254740992"
    unfolding s_def pw [symmetric] by (rule round_double_err)
  have e4: "\<bar>r - sn\<bar> \<le> \<bar>sn\<bar> / 9007199254740992"
    unfolding r_def pw [symmetric] by (rule round_double_err)
  have W0: "0 \<le> W" using x1 x2 W by linarith
  have xb: "\<bar>X\<bar> \<le> W" using x1 x2 W X_def by linarith
  have tx: "\<bar>T - X\<bar> \<le> W / 9007199254740992"
    using e1 e2 x1 x2 W T_def X_def by linarith
  have tb: "\<bar>T\<bar> \<le> W + W / 9007199254740992"
    using tx xb by linarith
  have st: "\<bar>s - T\<bar> \<le> 2 * W / 9007199254740992"
    using e3 tb W0 by linarith
  have sx: "\<bar>s - X\<bar> \<le> 3 * W / 9007199254740992"
    using st tx by linarith
  have sb: "\<bar>s\<bar> \<le> 2 * W"
    using sx xb W0 by linarith
  have "\<bar>sn\<bar> = \<bar>s\<bar> / n" using assms(6) by (simp add: sn_def)
  also have "\<dots> \<le> 2 * W / n" using sb assms(6) by (intro divide_right_mono) simp_all
  also have "\<dots> = 2 * M" using assms(6) by (simp add: W_def)
  finally have snb: "\<bar>sn\<bar> \<le> 2 * M" .
  have "\<bar>sn - Xn\<bar> = \<bar>s - X\<bar> / n"
    using assms(6) by (simp add: sn_def Xn_def diff_divide_distrib [symmetric])
  also have "\<dots> \<le> 3 * W / 9007199254740992 / n"
    using sx assms(6) by (intro divide_right_mono) simp_all
  also have "\<dots> = 3 * M / 9007199254740992" using assms(6) by (simp add: W_def)
  finally have dx: "\<bar>sn - Xn\<bar> \<le> 3 * M / 9007199254740992" .
  have "\<bar>r - Xn\<bar> \<le> M / 1125899906842624"
    using e4 snb dx M by linarith
  then show ?thesis
    by (simp only: r_def sn_def s_def T_def t1_def t2_def Xn_def X_def p1_def p2_def pw)
qed

lemma cut_point_95:
  assumes "20 \<le> length xs"
  shows "cut_point xs 20 19 =
           round_double
             (round_double
                (round_double (xs ! nat (19 * (int (length xs) + 1) div 20 - 1)
                   * real_of_int (20 - 19 * (int (length xs) + 1) mod 20)) +
                 round_double (xs ! nat (19 * (int (length xs) + 1) div 20)
                   * real_of_int (19 * (int (length xs) + 1) mod 20)))
              / real_of_int 20)"
proof -
  let ?m = "int (length xs) + 1"
  have m: "21 \<le> ?m" using assms by simp
  note b = div_mod_bounds [of 20 "19 * ?m" ?m]
  have 1: "\<not> 19 * ?m div 20 < 1" using b(1) m by simp
  have 2: "\<not> 19 * ?m div 20 > int (length xs) - 1" using b(2) m by simp
  have 3: "19 * ?m - 19 * ?m div 20 * 20 = 19 * ?m mod 20"
    by (simp add: minus_div_mult_eq_mod)
  show ?thesis
    unfolding cut_point_def Let_def if_not_P [OF 1] if_not_P [OF 2] 3 ..
qed

lemma cut_point_99:
  assumes "100 \<le> length xs"
  shows "cut_point xs 100 99 =
           round_double
             (round_double
                (round_double (xs ! nat (99 * (int (length xs) + 1) div 100 - 1)
                   * real_of_int (100 - 99 * (int (length xs) + 1) mod 100)) +
                 round_double (xs ! nat (99 * (int (length xs) + 1) div 100)
                   * real_of_int (99 * (int (length xs) + 1) mod 100)))
              / real_of_int 100)"
proof -
  let ?m = "int (length xs) + 1"
  have m: "101 \<le> ?m" using assms by simp
  note b = div_mod_bounds [of 100 "99 * ?m" ?m]
  have 1: "\<not> 99 * ?m div 100 < 1" using b(1) m by simp
  have 2: "\<not> 99 * ?m div 100 > int (length xs) - 1" using b(2) m by simp
  have 3: "99 * ?m - 99 * ?m div 100 * 100 = 99 * ?m mod 100"
    by (simp add: minus_div_mult_eq_mod)
  show ?thesis
    unfolding cut_point_def Let_def if_not_P [OF 1] if_not_P [OF 2] 3 ..
qed

lemma sorted_nth_int:
  assumes "sorted xs" "0 \<le> i" "i \<le> j" "j < int (length xs)"
  shows "xs ! nat i \<le> xs ! nat j"
  using assms by (intro sorted_nth_mono) simp_all

lemma rd_m1501: "round_double (- 1501) = - 1501"
  using round_double_eval [of "- 1501" 10 "- 6601467813167104"]
  by (simp add: round_half_even_def pow2_def)

lemma rd_3580: "round_double 3580 = 3580"
  using round_double_eval [of 3580 11 7872503254876160]
  by (simp add: round_half_even_def pow2_def)

lemma rd_2079: "round_double 2079 = 2079"
  using round_double_eval [of 2079 11 4571769348292608]
  by (simp add: round_half_even_def pow2_def)

lemma rd_2079_100: "round_double (2079 / 100) = 2925932382907269 / 140737488355328"
  using round_double_eval [of "2079 / 100" 4 5851864765814538]
  by (simp add: round_half_even_def pow2_def)

lemma rd_c6_1:
  "round_double (7566047373982433 / 36028797018963968) = 7566047373982433 / 36028797018963968"
  using round_double_eval [of "7566047373982433 / 36028797018963968" "- 3" 7566047373982433]
  by (simp add: round_half_even_def pow2_def)

lemma rd_c6_2:
  "round_double (143754900105666227 / 36028797018963968) =
     8984681256604139 / 2251799813685248"
  using round_double_eval [of "143754900105666227 / 36028797018963968" 1 8984681256604139]
  by (simp add: round_half_even_def pow2_def)

lemma rd_c6_3:
  "round_double (151320947479648657 / 36028797018963968) =
     4728779608739021 / 1125899906842624"
  using round_double_eval [of "151320947479648657 / 36028797018963968" 2 4728779608739021]
  by (simp add: round_half_even_def pow2_def)

lemma rd_c6_4:
  "round_double (4728779608739021 / 22517998136852480) =
     3783023686991217 / 18014398509481984"
  using round_double_eval [of "4728779608739021 / 22517998136852480" "- 3" 7566047373982434]
  by (simp add: round_half_even_def pow2_def)

lemma abs_nth_le_Max:
  assumes "k < length xs"
  shows "\<bar>xs ! k\<bar> \<le> Max (abs ` set xs)"
  using assms by (intro Max_ge) simp_all

lemma p95_near_max:
  assumes "20 \<le> length ds"
  shows "cut_point (sort ds) 20 19 \<le> Max (set ds) + Max (abs ` set ds) / 2 ^ 50"
proof -
  define xs where "xs = sort ds"
  define m where "m = int (length xs) + 1"
  define j where "j = 19 * m div 20"
  define dl where "dl = 19 * m mod 20"
  define M where "M = Max (abs ` set xs)"
  define a where "a = xs ! nat (j - 1)"
  define b where "b = xs ! nat j"
  have len: "20 \<le> length xs" and srt: "sorted xs" and st: "set xs = set ds"
    using assms by (simp_all add: xs_def)
  have m: "21 \<le> m" using len by (simp add: m_def)
  have bd: "1 \<le> j" "j \<le> m - 2" "0 \<le> dl" "dl < 20"
    using div_mod_bounds [of 20 "19 * m" m] m by (simp_all add: j_def dl_def)
  have cp: "cut_point xs 20 19 =
      round_double (round_double (round_double (a * real_of_int (20 - dl)) +
        round_double (b * real_of_int dl)) / real_of_int 20)"
    unfolding a_def b_def j_def dl_def m_def by (rule cut_point_95 [OF len])
  have aM: "\<bar>a\<bar> \<le> M" "\<bar>b\<bar> \<le> M"
    unfolding a_def b_def M_def using bd by (auto intro!: abs_nth_le_Max simp: m_def)
  have "\<bar>cut_point xs 20 19
          - (a * real_of_int (20 - dl) + b * real_of_int dl) / real_of_int 20\<bar> \<le> M / 2 ^ 50"
    unfolding cp using aM bd by (intro interpolate_rounding) simp_all
  moreover have "a \<le> b"
    unfolding a_def b_def using srt bd by (intro sorted_nth_int) (simp_all add: m_def)
  then have "(a * real_of_int (20 - dl) + b * real_of_int dl) / real_of_int 20 \<le> b"
    using bd by (intro interpolate_bounds(2)) simp_all
  moreover have "nat j < length xs"
    using bd by (simp add: m_def)
  then have "b \<le> Max (set xs)"
    unfolding b_def by (intro Max_ge) simp_all
  ultimately have "cut_point xs 20 19 \<le> Max (set xs) + M / 2 ^ 50"
    by linarith
  then show ?thesis
    by (simp add: xs_def M_def)
qed

lemma p95_near_p99:
  assumes "100 \<le> length ds"
  shows "cut_point (sort ds) 20 19 \<le> cut_point (sort ds) 100 99 + Max (abs ` set ds) / 2 ^ 49"
proof -
  define xs where "xs = sort ds"
  define m where "m = int (length xs) + 1"
  define j1 where "j1 = 19 * m div 20"
  define d1 where "d1 = 19 * m mod 20"
  define j2 where "j2 = 99 * m div 100"
  define d2 where "d2 = 99 * m mod 100"
  define M where "M = Max (abs ` set xs)"
  define a1 where "a1 = xs ! nat (j1 - 1)"
  define b1 where "b1 = xs ! nat j1"
  define a2 where "a2 = xs ! nat (j2 - 1)"
  define b2 where "b2 = xs ! nat j2"
  define E1 where "E1 = (a1 * real_of_int (20 - d1) + b1 * real_of_int d1) / real_of_int 20"
  define E2 where "E2 = (a2 * real_of_int (100 - d2) + b2 * real_of_int d2) / real_of_int 100"
  have len: "100 \<le> length xs" and srt: "sorted xs"
    using assms by (simp_all add: xs_def)
  then have len20: "20 \<le> length xs" by simp
  have m: "101 \<le> m" using len by (simp add: m_def)
  have bd1: "1 \<le> j1" "j1 \<le> m - 2" "0 \<le> d1" "d1 < 20"
    using div_mod_bounds [of 20 "19 * m" m] m by (simp_all add: j1_def d1_def)
  have bd2: "1 \<le> j2" "j2 \<le> m - 2" "0 \<le> d2" "d2 < 100"
    using div_mod_bounds [of 100 "99 * m" m] m by (simp_all add: j2_def d2_def)
  have e1: "19 * m = 20 * j1 + d1" by (simp add: j1_def d1_def)
  have e2: "99 * m = 100 * j2 + d2" by (simp add: j2_def d2_def)
  have cp1: "cut_point xs 20 19 =
      round_double (round_double (round_double (a1 * real_of_int (20 - d1)) +
        round_double (b1 * real_of_int d1)) / real_of_int 20)"
    unfolding a1_def b1_def j1_def d1_def m_def by (rule cut_point_95 [OF len20])
  have cp2: "cut_point xs 100 99 =
      round_double (round_double (round_double (a2 * real_of_int (100 - d2)) +
        round_double (b2 * real_of_int d2)) / real_of_int 100)"
    unfolding a2_def b2_def j2_def d2_def m_def by (rule cut_point_99 [OF len])
  have aM: "\<bar>a1\<bar> \<le> M" "\<bar>b1\<bar> \<le> M" "\<bar>a2\<bar> \<le> M" "\<bar>b2\<bar> \<le> M"
    unfolding a1_def b1_def a2_def b2_def M_def using bd1 bd2
    by (auto intro!: abs_nth_le_Max simp: m_def)
  have r1: "\<bar>cut_point xs 20 19 - E1\<bar> \<le> M / 2 ^ 50"
    unfolding cp1 E1_def using aM bd1 by (intro interpolate_rounding) simp_all
  have r2: "\<bar>cut_point xs 100 99 - E2\<bar> \<le> M / 2 ^ 50"
    unfolding cp2 E2_def using aM bd2 by (intro interpolate_rounding) simp_all
  have s1: "a1 \<le> b1"
    unfolding a1_def b1_def using srt bd1 by (intro sorted_nth_int) (simp_all add: m_def)
  have s2: "a2 \<le> b2"
    unfolding a2_def b2_def using srt bd2 by (intro sorted_nth_int) (simp_all add: m_def)
  have "E1 \<le> E2"
  proof (cases "j1 = j2")
    case True
    have "5 * d1 \<le> d2" using e1 e2 True m by linarith
    moreover have "a2 = a1" "b2 = b1" by (simp_all add: a1_def a2_def b1_def b2_def True)
    ultimately show ?thesis
      unfolding E1_def E2_def using s1 by (simp only: interpolate_mono)
  next
    case False
    have "j1 \<le> j2 - 1" using e1 e2 False m bd1 bd2 by linarith
    then have mid: "b1 \<le> a2"
      unfolding b1_def a2_def using srt bd1 bd2 by (intro sorted_nth_int) (simp_all add: m_def)
    have "E1 \<le> b1"
      unfolding E1_def using s1 bd1 by (intro interpolate_bounds(2)) simp_all
    moreover have "a2 \<le> E2"
      unfolding E2_def using s2 bd2 by (intro interpolate_bounds(1)) simp_all
    ultimately show ?thesis
      using mid by linarith
  qed
  moreover have "M / 2 ^ 50 + M / 2 ^ 50 = M / 2 ^ 49"
    by simp
  ultimately have "cut_point xs 20 19 \<le> cut_point xs 100 99 + M / 2 ^ 49"
    using r1 r2 by linarith
  then show ?thesis
    by (simp add: xs_def M_def)
qed

section \<open>Facts about the executors\<close>

lemma run_inv_init: "run_inv N C env rs0 (init rs0)"
  by (auto simp: run_inv_def init_def)

lemma done_start:
  assumes "alive s \<subseteq> {..<next_i s}"
  shows "{..<Suc (next_i s)} - insert (next_i s) (alive s) = {..<next_i s} - alive s"
  using assms by auto

lemma done_finish:
  assumes "alive s \<subseteq> {..<next_i s}" "t \<in> alive s"
  shows "{..<next_i s} - (alive s - {t}) = insert t ({..<next_i s} - alive s)"
  using assms by auto

lemma run_inv_step:
  assumes "run_inv N C env rs0 s" "step N C env s s'"
  shows "run_inv N C env rs0 s'"
  using assms(2)
proof cases
  case start
  with assms(1) show ?thesis
    unfolding run_inv_def by (auto simp: done_start)
next
  case (finish t)
  from assms(1) obtain new where new: "self_results s = rs0 @ new"
    "mset new = image_mset (worker_result env) (mset_set ({..<next_i s} - alive s))"
    and fin: "finite (alive s)" and sub: "alive s \<subseteq> {..<next_i s}"
    unfolding run_inv_def by blast
  have "mset (new @ [worker_result env t]) =
        image_mset (worker_result env) (mset_set ({..<next_i s} - (alive s - {t})))"
    using new(2) finish(2) sub by (simp add: done_finish)
  then have "\<exists>new'. self_results s' = rs0 @ new' \<and>
      mset new' = image_mset (worker_result env) (mset_set ({..<next_i s'} - alive s'))"
    using new(1) finish(1) by (intro exI [of _ "new @ [worker_result env t]"]) simp
  with assms(1) finish show ?thesis
    unfolding run_inv_def by auto
next
  case joined
  with assms(1) show ?thesis
    unfolding run_inv_def by auto
next
  case loop_exit
  with assms(1) show ?thesis
    unfolding run_inv_def by auto
next
  case return
  with assms(1) show ?thesis
    unfolding run_inv_def by auto
qed

lemma run_inv_reachable:
  assumes "rtranclp (step N C env) (init rs0) s"
  shows "run_inv N C env rs0 s"
  using assms by (induction rule: rtranclp_induct) (auto intro: run_inv_init run_inv_step)

lemma step_decreases:
  assumes "run_inv N C env rs0 s" "step N C env s s'"
  shows "steps_left N s' < steps_left N s"
  using assms(2)
proof cases
  case start
  from assms(1) have fin: "finite (alive s)" and sub: "alive s \<subseteq> {..<next_i s}"
    unfolding run_inv_def by blast+
  then have "next_i s \<notin> alive s" by auto
  then have c: "card (insert (next_i s) (alive s)) = Suc (card (alive s))"
    using fin by simp
  have "next_i s < nat N" using start(3) by simp
  then have "3 * (nat N - next_i s) = 3 * (nat N - Suc (next_i s)) + 3" by simp
  then show ?thesis
    using start(1,2) c by (simp add: steps_left_def)
next
  case (finish t)
  from assms(1) have fin: "finite (alive s)"
    unfolding run_inv_def by blast
  then have "card (alive s - {t}) < card (alive s)"
    using finish(2) by (intro card_Diff1_less)
  then show ?thesis
    using finish(1) by (simp add: steps_left_def)
next
  case joined
  then show ?thesis by (simp add: steps_left_def)
next
  case loop_exit
  then show ?thesis by (simp add: steps_left_def)
next
  case return
  then show ?thesis by (simp add: steps_left_def)
qed

lemma progress:
  assumes "run_inv N C env rs0 s" "pc s \<noteq> Returned"
  shows "\<exists>s'. step N C env s s'"
proof (cases "alive s = {}")
  case False
  then obtain t where "t \<in> alive s" by blast
  then show ?thesis by (blast intro: step.finish)
next
  case True
  show ?thesis
  proof (cases "pc s")
    case Spawn
    then show ?thesis
      by (cases "int (next_i s) < N") (blast intro: step.start step.loop_exit)+
  next
    case Join
    then show ?thesis using True by (blast intro: step.joined)
  next
    case FinalJoin
    then show ?thesis using True by (blast intro: step.return)
  next
    case Returned
    with assms(2) show ?thesis by simp
  qed
qed

lemma can_return:
  assumes "run_inv N C env rs0 s"
  shows "\<exists>s'. rtranclp (step N C env) s s' \<and> pc s' = Returned"
  using assms
proof (induction "steps_left N s" arbitrary: s rule: less_induct)
  case less
  show ?case
  proof (cases "pc s = Returned")
    case True
    then show ?thesis by blast
  next
    case False
    with less.prems obtain s1 where s1: "step N C env s s1"
      using progress by blast
    with less.prems have "run_inv N C env rs0 s1" "steps_left N s1 < steps_left N s"
      by (blast intro: run_inv_step step_decreases)+
    then obtain s' where "rtranclp (step N C env) s1 s'" "pc s' = Returned"
      using less.hyps by blast
    with s1 show ?thesis
      by (blast intro: converse_rtranclp_into_rtranclp)
  qed
qed

lemma returned_results:
  assumes "run_inv N C env rs0 s" "pc s = Returned"
  shows "\<exists>new. self_results s = rs0 @ new \<and> length new = nat N \<and>
           mset new = image_mset (worker_result env) (mset [0..<nat N])"
proof -
  from assms have n: "N \<le> int (next_i s)" "int (next_i s) \<le> max N 0" and a: "alive s = {}"
    unfolding run_inv_def by blast+
  then have k: "next_i s = nat N" by (auto simp: max_def split: if_splits)
  from assms(1) obtain new where new: "self_results s = rs0 @ new"
    "mset new = image_mset (worker_result env) (mset_set ({..<next_i s} - alive s))"
    unfolding run_inv_def by blast
  have "mset_set {..<nat N} = mset [0..<nat N]"
    by (simp add: lessThan_atLeast0 mset_upt [symmetric] del: mset_upt)
  with new(2) a k have m: "mset new = image_mset (worker_result env) (mset [0..<nat N])"
    by simp
  then have "size (mset new) = nat N" by simp
  then have "length new = nat N" by simp
  with new(1) m show ?thesis by blast
qed

lemma in_order_prefix:
  assumes "k \<le> nat N"
  shows "\<exists>s. rtranclp (step N C env) (init rs0) s \<and> pc s = Spawn \<and> alive s = {} \<and>
            next_i s = k \<and> self_results s = rs0 @ map (worker_result env) [0..<k]"
  using assms
proof (induction k)
  case 0
  show ?case
    by (intro exI [of _ "init rs0"]) (simp add: init_def)
next
  case (Suc k)
  then obtain s where s: "rtranclp (step N C env) (init rs0) s" "pc s = Spawn"
    "alive s = {}" "next_i s = k" "self_results s = rs0 @ map (worker_result env) [0..<k]"
    by auto
  define s1 where "s1 =
    s\<lparr> next_i := Suc (next_i s), threads := threads s @ [next_i s],
       alive := insert (next_i s) (alive s),
       pc := (if int (length (threads s @ [next_i s])) \<ge> C then Join else Spawn) \<rparr>"
  define s2 where "s2 =
    s1\<lparr> self_results := self_results s1 @ [worker_result env k], alive := alive s1 - {k} \<rparr>"
  have "int (next_i s) < N" using Suc.prems s(4) by simp
  then have 1: "step N C env s s1"
    unfolding s1_def using s(2) by (intro step.start)
  have "k \<in> alive s1" by (simp add: s1_def s(4))
  then have 2: "step N C env s1 s2"
    unfolding s2_def by (intro step.finish)
  have r2: "rtranclp (step N C env) (init rs0) s2"
    using s(1) 1 2 by (meson rtranclp.rtrancl_into_rtrancl)
  have p2: "alive s2 = {}" "next_i s2 = Suc k"
    "self_results s2 = rs0 @ map (worker_result env) [0..<Suc k]"
    by (simp_all add: s2_def s1_def s)
  show ?case
  proof (cases "pc s2 = Join")
    case True
    define s3 where "s3 = s2\<lparr> threads := [], pc := Spawn \<rparr>"
    have "step N C env s2 s3"
      unfolding s3_def using True p2(1) by (intro step.joined) simp_all
    with r2 have "rtranclp (step N C env) (init rs0) s3"
      by (rule rtranclp.rtrancl_into_rtrancl)
    moreover have "pc s3 = Spawn" "alive s3 = {}" "next_i s3 = Suc k"
      "self_results s3 = rs0 @ map (worker_result env) [0..<Suc k]"
      using p2 by (simp_all add: s3_def)
    ultimately show ?thesis by blast
  next
    case False
    then have "pc s2 = Spawn" by (simp add: s2_def s1_def split: if_splits)
    with r2 p2 show ?thesis by blast
  qed
qed

lemma in_order_run:
  "run_threaded_stress_test N C env rs0 (rs0 @ map (worker_result env) [0..<nat N])"
proof -
  obtain s where s: "rtranclp (step N C env) (init rs0) s" "pc s = Spawn"
    "alive s = {}" "next_i s = nat N"
    "self_results s = rs0 @ map (worker_result env) [0..<nat N]"
    using in_order_prefix [of "nat N" N C env rs0] by auto
  define s1 where "s1 = s\<lparr> pc := FinalJoin \<rparr>"
  define s2 where "s2 = s1\<lparr> threads := [], pc := Returned \<rparr>"
  have "\<not> int (next_i s) < N" using s(4) by simp
  then have 1: "step N C env s s1"
    unfolding s1_def using s(2) by (intro step.loop_exit)
  have 2: "step N C env s1 s2"
    unfolding s2_def by (intro step.return) (simp_all add: s1_def s(3))
  have "rtranclp (step N C env) (init rs0) s2"
    using s(1) 1 2 by (meson rtranclp.rtrancl_into_rtrancl)
  moreover have "pc s2 = Returned" "self_results s2 = rs0 @ map (worker_result env) [0..<nat N]"
    by (simp_all add: s2_def s1_def s(5))
  ultimately show ?thesis
    unfolding run_threaded_stress_test_def by blast
qed

lemma run_returns:
  assumes "run_threaded_stress_test N C env rs0 rs"
  shows "\<exists>new. rs = rs0 @ new \<and> length new = nat N \<and>
           mset new = image_mset (worker_result env) (mset [0..<nat N])"
  using assms unfolding run_threaded_stress_test_def
  by (auto dest!: run_inv_reachable dest: returned_results)

lemma start_to:
  assumes "pc s = Spawn" "int (next_i s) < N"
    "s' = s\<lparr> next_i := Suc (next_i s), threads := threads s @ [next_i s],
              alive := insert (next_i s) (alive s),
              pc := (if int (length (threads s @ [next_i s])) \<ge> C then Join else Spawn) \<rparr>"
  shows "step N C env s s'"
  unfolding assms(3) using assms(1,2) by (rule step.start)

lemma five_started:
  "rtranclp (step 25 5 env) (init [])
     \<lparr> self_results = [], next_i = 5, threads = [0, 1, 2, 3, 4], alive = {4, 3, 2, 1, 0},
       pc = Join \<rparr>"
proof -
  have "rtranclp (step 25 5 env) (init [])
      \<lparr> self_results = [], next_i = 1, threads = [0], alive = {0}, pc = Spawn \<rparr>"
    by (rule r_into_rtranclp, rule start_to) (simp_all add: init_def)
  then have "rtranclp (step 25 5 env) (init [])
      \<lparr> self_results = [], next_i = 2, threads = [0, 1], alive = {1, 0}, pc = Spawn \<rparr>"
    by (rule rtranclp.rtrancl_into_rtrancl, intro start_to) simp_all
  then have "rtranclp (step 25 5 env) (init [])
      \<lparr> self_results = [], next_i = 3, threads = [0, 1, 2], alive = {2, 1, 0}, pc = Spawn \<rparr>"
    by (rule rtranclp.rtrancl_into_rtrancl, intro start_to) simp_all
  then have "rtranclp (step 25 5 env) (init [])
      \<lparr> self_results = [], next_i = 4, threads = [0, 1, 2, 3], alive = {3, 2, 1, 0},
        pc = Spawn \<rparr>"
    by (rule rtranclp.rtrancl_into_rtrancl, intro start_to) simp_all
  then show ?thesis
    by (rule rtranclp.rtrancl_into_rtrancl, intro start_to) simp_all
qed

section \<open>Claims about the report generator\<close>

text \<open>
  Claim C5. For every outcome population that is summarised (a non-empty one; the empty
  one raises, see C2), the report exists, its total is the number of outcomes, and its
  successful count plus its failed count equals its total count.
\<close>

theorem C5_counts_partition:
  assumes "results \<noteq> []"
  shows "\<exists>rep. generate_report mw results d = Inr rep \<and>
           total_requests rep = length results \<and>
           successful_requests rep + failed_requests rep = total_requests rep"
  using assms by (simp add: generate_report_nonempty sum_length_filter_compl)

theorem C5_counts_partition_witness:
  "\<exists>rep. generate_report 10
            [worker 0 0 1 (Response 200 5), worker 1 0 2 (Raised ''timed out'')] 3 = Inr rep \<and>
         total_requests rep = 2 \<and>
         successful_requests rep + failed_requests rep = total_requests rep"
  using C5_counts_partition
          [of "[worker 0 0 1 (Response 200 5), worker 1 0 2 (Raised ''timed out'')]" 10 3]
  by (simp add: generate_report_nonempty)

text \<open>
  Claim C2, as stated, fails: on the empty population \<open>generate_report\<close> takes its first
  branch and raises \<^verbatim>\<open>ValueError("No results to analyze")\<close>.
\<close>

theorem C2_counterexample:
  "generate_report 10 [] 0 = Inl (ValueError ''No results to analyze'')"
  by (simp add: generate_report_def)

text \<open>
  Claim C2, amended. Summarising the empty population raises \<^verbatim>\<open>ValueError\<close>; every
  non-empty population yields a report, and the explicit zero-defaults apply to the
  latency fields when no outcome succeeded and to the throughput when the duration is not
  positive.
\<close>

theorem C2_empty_raises_nonempty_reports:
  "generate_report mw [] d = Inl (ValueError ''No results to analyze'') \<and>
   (results \<noteq> [] \<longrightarrow>
      (\<exists>rep. generate_report mw results d = Inr rep \<and>
         (filter success results = [] \<longrightarrow>
            avg_response_time rep = 0 \<and> min_response_time rep = 0 \<and>
            max_response_time rep = 0 \<and> p95_response_time rep = 0 \<and>
            p99_response_time rep = 0) \<and>
         (d \<le> 0 \<longrightarrow> requests_per_second rep = 0)))"
  by (simp add: generate_report_empty generate_report_nonempty)

theorem C2_empty_raises_nonempty_reports_witness:
  "generate_report 10 [] 0 = Inl (ValueError ''No results to analyze'') \<and>
   (\<exists>rep. generate_report 10 [worker 0 0 1 (Raised ''refused'')] 0 = Inr rep \<and>
      avg_response_time rep = 0 \<and> min_response_time rep = 0 \<and>
      max_response_time rep = 0 \<and> p95_response_time rep = 0 \<and>
      p99_response_time rep = 0 \<and> requests_per_second rep = 0)"
  using C2_empty_raises_nonempty_reports [of 10 0 "[worker 0 0 1 (Raised ''refused'')]"]
  by (simp add: generate_report_nonempty)

text \<open>
  Claim C1, as stated, fails. One successful outcome gives a success rate of 100, which
  is neither \<open>successful / total = 1\<close> nor within \<open>[0, 1]\<close>; and one failed outcome gives
  a success rate of 0 although the total is 1.
\<close>

theorem C1_counterexample:
  "\<not> isl (generate_report 10 [worker 0 0 1 (Response 200 5)] 1) \<and>
   success_rate (projr (generate_report 10 [worker 0 0 1 (Response 200 5)] 1)) = 100 \<and>
   \<not> success_rate (projr (generate_report 10 [worker 0 0 1 (Response 200 5)] 1)) \<le> 1 \<and>
   success_rate (projr (generate_report 10 [worker 0 0 1 (Response 200 5)] 1)) \<noteq>
     real (successful_requests (projr (generate_report 10 [worker 0 0 1 (Response 200 5)] 1)))
       / real (total_requests (projr (generate_report 10 [worker 0 0 1 (Response 200 5)] 1))) \<and>
   \<not> isl (generate_report 10 [worker 0 0 1 (Response 500 5)] 1) \<and>
   success_rate (projr (generate_report 10 [worker 0 0 1 (Response 500 5)] 1)) = 0 \<and>
   total_requests (projr (generate_report 10 [worker 0 0 1 (Response 500 5)] 1)) \<noteq> 0"
  by (simp add: generate_report_nonempty)

text \<open>
  Claim C1, amended. For every non-empty outcome population the success rate is the
  percentage of its outcomes that succeeded, \<open>successful / total * 100\<close> with
  \<open>successful\<close> the number of outcomes whose success flag is set and \<open>total\<close> the number
  of outcomes; it lies within \<open>[0, 100]\<close>, and it is 0 exactly when no outcome succeeded.
\<close>

theorem C1_success_rate_percentage:
  assumes "results \<noteq> []"
  shows "\<exists>rep. generate_report mw results d = Inr rep \<and>
           total_requests rep = length results \<and>
           successful_requests rep = length (filter success results) \<and>
           success_rate rep =
             real (length (filter success results)) / real (length results) * 100 \<and>
           0 \<le> success_rate rep \<and> success_rate rep \<le> 100 \<and>
           (success_rate rep = 0) = (filter success results = [])"
proof -
  have "length (filter success results) \<le> length results"
    by simp
  then have "real (length (filter success results)) \<le> real (length results)"
    by (simp only: of_nat_le_iff)
  moreover have "0 < real (length results)"
    using assms by simp
  ultimately have "real (length (filter success results)) * 100 / real (length results) \<le> 100"
    by (simp add: pos_divide_le_eq)
  with assms show ?thesis
    by (simp add: generate_report_nonempty)
qed

theorem C1_success_rate_percentage_witness:
  "[worker 0 0 1 (Response 200 5), worker 1 0 2 (Response 503 0)] \<noteq> [] \<and>
   (\<exists>rep. generate_report 10
            [worker 0 0 1 (Response 200 5), worker 1 0 2 (Response 503 0)] 3 = Inr rep \<and>
         total_requests rep = 2 \<and> successful_requests rep = 1 \<and>
         success_rate rep = 50 \<and>
         0 \<le> success_rate rep \<and> success_rate rep \<le> 100 \<and>
         (success_rate rep = 0) =
           (filter success [worker 0 0 1 (Response 200 5), worker 1 0 2 (Response 503 0)] = []))"
  using C1_success_rate_percentage
          [of "[worker 0 0 1 (Response 200 5), worker 1 0 2 (Response 503 0)]" 10 3]
  by (simp add: generate_report_nonempty)

text \<open>
  Claim C10, as stated, fails. In the fan-out discipline a trial can receive a response
  with status 200 and then fail to read its body: the outcome is a failed one, with
  status code 0 and an error description; and with status 201 the error description is
  set, not unset.
\<close>

theorem C10_counterexample:
  "\<not> success (single_request 0 0 1 (Unread 200 ''Response payload is not completed'')) \<and>
   status_code (single_request 0 0 1 (Unread 200 ''Response payload is not completed'')) = 0 \<and>
   error (single_request 0 0 1 (Unread 200 ''Response payload is not completed'')) =
     Some ''Response payload is not completed'' \<and>
   error (single_request 0 0 1 (Unread 201 ''Response payload is not completed'')) \<noteq> None"
  by simp

text \<open>
  Claim C10, amended. For every trial whose response is received and whose body is read,
  under either discipline, the success flag is true exactly when the status code is 200,
  the status code is recorded as received, and the error description stays
  \<^verbatim>\<open>None\<close>; so 201 or 204 give a failed outcome with no error description. A trial
  whose response arrives but whose body cannot be read is a failed outcome with status
  code 0 that carries the exception's description, whatever status arrived.
\<close>

theorem C10_success_iff_status_200:
  "success (worker tid t0 t1 (Response status sz)) = (status = 200) \<and>
   error (worker tid t0 t1 (Response status sz)) = None \<and>
   status_code (worker tid t0 t1 (Response status sz)) = status \<and>
   success (single_request tid t0 t1 (Response status sz)) = (status = 200) \<and>
   error (single_request tid t0 t1 (Response status sz)) = None \<and>
   status_code (single_request tid t0 t1 (Response status sz)) = status \<and>
   \<not> success (single_request tid t0 t1 (Unread status msg)) \<and>
   error (single_request tid t0 t1 (Unread status msg)) = Some msg \<and>
   status_code (single_request tid t0 t1 (Unread status msg)) = 0 \<and>
   \<not> success (worker tid t0 t1 (Unread status msg)) \<and>
   error (worker tid t0 t1 (Unread status msg)) = Some msg \<and>
   status_code (worker tid t0 t1 (Unread status msg)) = 0"
  by simp

text \<open>
  Claim C8. The report is a function of the population as a multiset of outcomes, of the
  duration and of the tester's \<open>max_workers\<close>: two invocations on populations that hold
  the same outcomes the same number of times, in whatever order they arrived, yield the
  same result (the same report, or the same error for the empty population). The
  generator reads no random source and no clock.
\<close>

theorem C8_report_depends_on_population_only:
  assumes "mset results = mset results'"
  shows "generate_report mw results d = generate_report mw results' d"
proof (cases "results = []")
  case True
  with assms have "results' = []" by simp
  with True show ?thesis by simp
next
  case False
  with assms have ne': "results' \<noteq> []" by auto
  let ?ds = "map duration (filter success results)"
  let ?ds' = "map duration (filter success results')"
  have m: "mset ?ds = mset ?ds'"
    using assms by (rule mset_durations)
  have len: "length results = length results'"
    using assms by (rule mset_eq_length)
  have succ: "length (filter success results) = length (filter success results')"
    using m [THEN mset_eq_length] by simp
  have fail: "length (filter (\<lambda>r. \<not> success r) results) =
              length (filter (\<lambda>r. \<not> success r) results')"
    using len succ sum_length_filter_compl [of success results]
      sum_length_filter_compl [of success results'] by simp
  have ds: "sort ?ds = sort ?ds'" "set ?ds = set ?ds'" "sum_list ?ds = sum_list ?ds'"
    "length ?ds = length ?ds'" "(?ds = []) = (?ds' = [])"
    using m by (rule mset_eq_sort, rule mset_eq_setD, rule mset_eq_sum_list,
                rule mset_eq_length, rule mset_eq_nil)
  show ?thesis
    unfolding generate_report_nonempty [OF False] generate_report_nonempty [OF ne']
    unfolding len succ fail ds ..
qed

theorem C8_report_depends_on_population_only_witness:
  "mset [worker 0 0 1 (Response 200 5), worker 1 0 2 (Raised ''reset'')] =
     mset [worker 1 0 2 (Raised ''reset''), worker 0 0 1 (Response 200 5)] \<and>
   generate_report 10 [worker 0 0 1 (Response 200 5), worker 1 0 2 (Raised ''reset'')] 3 =
     generate_report 10 [worker 1 0 2 (Raised ''reset''), worker 0 0 1 (Response 200 5)] 3"
  using C8_report_depends_on_population_only
    [of "[worker 0 0 1 (Response 200 5), worker 1 0 2 (Raised ''reset'')]"
        "[worker 1 0 2 (Raised ''reset''), worker 0 0 1 (Response 200 5)]" 10 3]
  by simp

text \<open>
  Claim C3, as stated, fails. With 20 successful durations 1, 2, ..., 20 the count is at
  least 20, yet the 99th percentile field is the maximum, 20, while the quantile method
  that gives the 95th percentile field would give 20.79 (the double nearest to it) when
  asked for the 99th of 100.
\<close>

theorem C3_counterexample:
  "\<not> isl (generate_report 10
            (map (\<lambda>i. worker i 0 (real_of_int i) (Response 200 0)) [1..20]) 1) \<and>
   length (map duration (filter success
            (map (\<lambda>i. worker i 0 (real_of_int i) (Response 200 0)) [1..20]))) = 20 \<and>
   p99_response_time (projr (generate_report 10
            (map (\<lambda>i. worker i 0 (real_of_int i) (Response 200 0)) [1..20]) 1)) = 20 \<and>
   bind_err (quantiles (map duration (filter success
            (map (\<lambda>i. worker i 0 (real_of_int i) (Response 200 0)) [1..20]))) 100)
        (\<lambda>qs. py_index qs 98) = Inr (5851864765814538 / 2 ^ 48) \<and>
   (2079 / 100 - 1 / 10 ^ 15 :: real) < 5851864765814538 / 2 ^ 48"
  by (simp add: generate_report_nonempty q99 cut_point_def upto_1_20
        rd_m1501 rd_3580 rd_2079 rd_2079_100)

text \<open>
  Claim C6, as stated, fails. With 20 successful durations that all are the double
  nearest to 0.21, which is \<open>7566047373982433 / 2 ^ 55\<close>, the 99th percentile field is
  the maximum, that same number, while the interpolation of the 95th percentile rounds
  one unit in the last place above it (Python prints \<^verbatim>\<open>0.21000000000000002\<close>).
\<close>

theorem C6_counterexample:
  "\<not> isl (generate_report 10
            (map (\<lambda>i. worker i 0 (7566047373982433 / 2 ^ 55) (Response 200 0)) [1..20]) 1) \<and>
   p95_response_time (projr (generate_report 10
            (map (\<lambda>i. worker i 0 (7566047373982433 / 2 ^ 55) (Response 200 0)) [1..20]) 1))
     = 7566047373982434 / 2 ^ 55 \<and>
   p99_response_time (projr (generate_report 10
            (map (\<lambda>i. worker i 0 (7566047373982433 / 2 ^ 55) (Response 200 0)) [1..20]) 1))
     = 7566047373982433 / 2 ^ 55 \<and>
   \<not> p95_response_time (projr (generate_report 10
            (map (\<lambda>i. worker i 0 (7566047373982433 / 2 ^ 55) (Response 200 0)) [1..20]) 1))
       \<le> p99_response_time (projr (generate_report 10
            (map (\<lambda>i. worker i 0 (7566047373982433 / 2 ^ 55) (Response 200 0)) [1..20]) 1))"
  by (simp add: generate_report_nonempty cut_point_def upto_1_20
        rd_c6_1 rd_c6_2 rd_c6_3 rd_c6_4)

text \<open>
  Claim C6, amended. For every population that is summarised, the 99th percentile field
  is at least the 95th percentile field up to the rounding of the interpolation: the
  95th exceeds the 99th by at most \<open>2\<close> to the power \<open>- 49\<close> times the largest
  absolute value of a successful duration, and the two fields are equal when fewer than
  20 outcomes succeeded.
\<close>

theorem C6_p99_ge_p95_up_to_rounding:
  assumes "results \<noteq> []" and "ds = map duration (filter success results)"
  shows "\<exists>rep. generate_report mw results d = Inr rep \<and>
           (length ds < 20 \<longrightarrow> p95_response_time rep = p99_response_time rep) \<and>
           (ds \<noteq> [] \<longrightarrow>
              p95_response_time rep \<le> p99_response_time rep + Max (abs ` set ds) / 2 ^ 49)"
proof -
  have M: "0 \<le> Max (abs ` set ds)" if "ds \<noteq> []"
  proof -
    from that obtain x where "x \<in> set ds" by (cases ds) auto
    then have "\<bar>x\<bar> \<le> Max (abs ` set ds)" by (intro Max_ge) simp_all
    then show ?thesis by linarith
  qed
  consider "100 \<le> length ds" | "20 \<le> length ds" "length ds < 100" | "length ds < 20"
    by linarith
  then show ?thesis
  proof cases
    case 1
    then show ?thesis
      using p95_near_p99 [of ds] assms(1) unfolding assms(2)
      by (simp add: generate_report_nonempty del: length_map set_map)
  next
    case 2
    then have ne: "ds \<noteq> []" by auto
    have "Max (abs ` set ds) / 2 ^ 50 \<le> Max (abs ` set ds) / 2 ^ 49"
      using M [OF ne] by (simp add: field_simps)
    then have "cut_point (sort ds) 20 19 \<le> Max (set ds) + Max (abs ` set ds) / 2 ^ 49"
      using p95_near_max [of ds] 2(1) by linarith
    then show ?thesis
      using 2 ne assms(1) unfolding assms(2)
      by (simp add: generate_report_nonempty del: length_map set_map)
  next
    case 3
    have "0 \<le> Max (abs ` set ds) / 2 ^ 49" if "ds \<noteq> []"
      using M [OF that] by simp
    then show ?thesis
      using 3 assms(1) unfolding assms(2)
      by (simp add: generate_report_nonempty del: length_map set_map)
  qed
qed

theorem C6_p99_ge_p95_up_to_rounding_witness:
  "map (\<lambda>i. worker i 0 (real_of_int i) (Response 200 0)) [1..20] \<noteq> [] \<and>
   (\<exists>rep. generate_report 10
             (map (\<lambda>i. worker i 0 (real_of_int i) (Response 200 0)) [1..20]) 1 = Inr rep \<and>
          p99_response_time rep = 20 \<and>
          p95_response_time rep \<le> p99_response_time rep + 20 / 2 ^ 49)"
  using C6_p99_ge_p95_up_to_rounding
    [of "map (\<lambda>i. worker i 0 (real_of_int i) (Response 200 0)) [1..20]"
        "map duration (filter success
            (map (\<lambda>i. worker i 0 (real_of_int i) (Response 200 0)) [1..20]))" 10 1]
  by (simp add: generate_report_nonempty upto_1_20)

text \<open>
  Claim C3, amended. Each percentile field has its own threshold: the 95th is
  \<^verbatim>\<open>quantiles(durations, n=20)[18]\<close> when there are at least 20 successful durations, the
  99th is \<^verbatim>\<open>quantiles(durations, n=100)[98]\<close> when there are at least 100, and neither
  call fails; below its threshold a field is the maximum successful duration, and 0 when
  no outcome succeeded.
\<close>

theorem C3_percentile_thresholds:
  assumes "results \<noteq> []" and "ds = map duration (filter success results)"
  shows "\<exists>rep. generate_report mw results d = Inr rep \<and>
           (20 \<le> length ds \<longrightarrow>
              bind_err (quantiles ds 20) (\<lambda>qs. py_index qs 18) = Inr (p95_response_time rep)) \<and>
           (100 \<le> length ds \<longrightarrow>
              bind_err (quantiles ds 100) (\<lambda>qs. py_index qs 98) = Inr (p99_response_time rep)) \<and>
           (0 < length ds \<and> length ds < 20 \<longrightarrow> p95_response_time rep = Max (set ds)) \<and>
           (0 < length ds \<and> length ds < 100 \<longrightarrow> p99_response_time rep = Max (set ds)) \<and>
           (length ds = 0 \<longrightarrow> p95_response_time rep = 0 \<and> p99_response_time rep = 0)"
  using assms(1) p95_value [of ds] p99_value [of ds] unfolding assms(2)
  by (simp add: generate_report_nonempty del: length_map set_map)

theorem C3_percentile_thresholds_witness:
  "\<exists>rep. generate_report 10
            (map (\<lambda>i. worker i 0 (real_of_int i) (Response 200 0)) [1..20]) 1 = Inr rep \<and>
         length (map duration (filter success
            (map (\<lambda>i. worker i 0 (real_of_int i) (Response 200 0)) [1..20]))) = 20 \<and>
         bind_err (quantiles (map duration (filter success
            (map (\<lambda>i. worker i 0 (real_of_int i) (Response 200 0)) [1..20]))) 20)
           (\<lambda>qs. py_index qs 18) = Inr (p95_response_time rep) \<and>
         p99_response_time rep = Max (set (map duration (filter success
            (map (\<lambda>i. worker i 0 (real_of_int i) (Response 200 0)) [1..20]))))"
  using C3_percentile_thresholds
    [of "map (\<lambda>i. worker i 0 (real_of_int i) (Response 200 0)) [1..20]"
        "map duration (filter success
            (map (\<lambda>i. worker i 0 (real_of_int i) (Response 200 0)) [1..20]))" 10 1]
  by (simp add: generate_report_nonempty upto_1_20)

section \<open>Claims about the executors\<close>

text \<open>
  Claim C7. In every state that a run of the batched executor with \<open>1 \<le> C\<close> can reach,
  under any schedule of the threads: at most \<open>C\<close> trials are in flight; every trial in
  flight belongs to the current batch \<open>threads\<close>, so when the main thread begins a new
  batch (with \<open>threads\<close> empty) no trial of an earlier batch is still in flight; the
  batch never holds more than \<open>C\<close> threads; the main thread starts a thread only while
  the batch holds fewer than \<open>C\<close>, and it waits in the joins exactly when the batch
  holds \<open>C\<close>.
\<close>

theorem C7_batched_in_flight_bound:
  assumes "1 \<le> C" and "rtranclp (step N C env) (init rs0) s"
  shows "int (card (alive s)) \<le> C \<and> alive s \<subseteq> set (threads s) \<and>
         int (length (threads s)) \<le> C \<and>
         (pc s = Spawn \<longrightarrow> int (length (threads s)) < C) \<and>
         (pc s = Join \<longrightarrow> int (length (threads s)) = C)"
proof -
  from assms(2) have inv: "run_inv N C env rs0 s"
    by (rule run_inv_reachable)
  then have sub: "alive s \<subseteq> set (threads s)" and len: "int (length (threads s)) \<le> max C 1"
    and sp: "pc s = Spawn \<longrightarrow> int (length (threads s)) < max C 1"
    and jn: "pc s = Join \<longrightarrow> C \<le> int (length (threads s))"
    unfolding run_inv_def by blast+
  have "card (alive s) \<le> card (set (threads s))"
    using sub by (intro card_mono) simp_all
  also have "\<dots> \<le> length (threads s)"
    by (rule card_length)
  finally have "int (card (alive s)) \<le> int (length (threads s))"
    by simp
  with sub len sp jn assms(1) show ?thesis
    by (auto simp: max_def)
qed

theorem C7_batched_in_flight_bound_witness:
  "(1::int) \<le> 5 \<and>
   rtranclp (step 25 5 (\<lambda>t. (0, 1, Response 200 0))) (init [])
     \<lparr> self_results = [], next_i = 5, threads = [0, 1, 2, 3, 4], alive = {4, 3, 2, 1, 0},
       pc = Join \<rparr> \<and>
   int (card {4, 3, 2, 1, 0::nat}) \<le> 5 \<and>
   {4, 3, 2, 1, 0::nat} \<subseteq> set [0, 1, 2, 3, 4] \<and>
   int (length [0, 1, 2, 3, 4::nat]) = 5"
  using C7_batched_in_flight_bound [OF _ five_started [of "\<lambda>t. (0, 1, Response 200 0)"]]
    five_started [of "\<lambda>t. (0, 1, Response 200 0)"]
  by simp

text \<open>
  Claim C9. A call of the batched executor returns the list it found in
  \<^verbatim>\<open>self.results\<close> extended by its own outcomes, so a second call on the same tester
  returns the first call's outcomes followed by its own: \<open>N1 + N2\<close> entries more than the
  list held at first. A call returns exactly its own number of outcomes only when the
  list was empty before it.
\<close>

theorem C9_results_accumulate:
  assumes "run_threaded_stress_test N1 C1 env1 rs0 rs1"
    and "run_threaded_stress_test N2 C2 env2 rs1 rs2"
  shows "take (length rs0) rs1 = rs0 \<and> length rs1 = length rs0 + nat N1 \<and>
         take (length rs1) rs2 = rs1 \<and> length rs2 = length rs0 + nat N1 + nat N2 \<and>
         (length rs1 = nat N1) = (rs0 = []) \<and> (length rs2 = nat N2) = (rs1 = [])"
proof -
  from assms(1) obtain new1 where 1: "rs1 = rs0 @ new1" "length new1 = nat N1"
    using run_returns by blast
  from assms(2) obtain new2 where 2: "rs2 = rs1 @ new2" "length new2 = nat N2"
    using run_returns by blast
  from 1 2 show ?thesis by auto
qed

theorem C9_results_accumulate_witness:
  "run_threaded_stress_test 1 1 (\<lambda>t. (0, 1, Response 200 7)) []
     [worker 0 0 1 (Response 200 7)] \<and>
   run_threaded_stress_test 2 1 (\<lambda>t. (5, 6, Response 200 7)) [worker 0 0 1 (Response 200 7)]
     [worker 0 0 1 (Response 200 7), worker 0 5 6 (Response 200 7),
      worker 1 5 6 (Response 200 7)] \<and>
   length [worker 0 0 1 (Response 200 7)] = 1 \<and>
   length [worker 0 0 1 (Response 200 7), worker 0 5 6 (Response 200 7),
      worker 1 5 6 (Response 200 7)] = 1 + 2 \<and>
   take 1 [worker 0 0 1 (Response 200 7), worker 0 5 6 (Response 200 7),
      worker 1 5 6 (Response 200 7)] = [worker 0 0 1 (Response 200 7)]"
proof -
  have a: "run_threaded_stress_test 1 1 (\<lambda>t. (0, 1, Response 200 7)) []
     [worker 0 0 1 (Response 200 7)]"
    using in_order_run [of 1 1 "\<lambda>t. (0, 1, Response 200 7)" "[]"]
    by (simp add: worker_result_def)
  have "[0..<nat 2] = [0, 1]" by code_simp
  then have b: "run_threaded_stress_test 2 1 (\<lambda>t. (5, 6, Response 200 7))
     [worker 0 0 1 (Response 200 7)]
     [worker 0 0 1 (Response 200 7), worker 0 5 6 (Response 200 7),
      worker 1 5 6 (Response 200 7)]"
    using in_order_run [of 2 1 "\<lambda>t. (5, 6, Response 200 7)" "[worker 0 0 1 (Response 200 7)]"]
    by (simp add: worker_result_def)
  show ?thesis
    using C9_results_accumulate [OF a b] a b by simp
qed

text \<open>
  Claim C4, at the input where the code fails it: a second call on the same tester. The
  first call, of one trial, returns one outcome. The second call, again of one trial,
  finds that outcome in \<^verbatim>\<open>self.results\<close> and returns two outcomes, where the claim
  says exactly one and where \<^verbatim>\<open>run_concurrent_requests\<close> starts every call from a fresh
  list. In the fan-out discipline a timeout raises an exception whose \<^verbatim>\<open>str(e)\<close> is
  empty, and the failed outcome carries that empty string as its description.
\<close>

theorem C4_second_call_returns_both:
  "run_threaded_stress_test 1 1 (\<lambda>t. (0, 1, Response 200 7)) []
     [worker 0 0 1 (Response 200 7)] \<and>
   run_threaded_stress_test 1 1 (\<lambda>t. (5, 6, Response 200 7)) [worker 0 0 1 (Response 200 7)]
     [worker 0 0 1 (Response 200 7), worker 0 5 6 (Response 200 7)] \<and>
   length [worker 0 0 1 (Response 200 7), worker 0 5 6 (Response 200 7)] = 2 \<and>
   run_concurrent_requests 1 1 (\<lambda>t. (5, 6, Response 200 7)) =
     Some (Inr [single_request 0 5 6 (Response 200 7)]) \<and>
   error (single_request 0 0 30 (Raised [])) = Some []"
  using in_order_run [of 1 1 "\<lambda>t. (0, 1, Response 200 7)" "[]"]
    in_order_run [of 1 1 "\<lambda>t. (5, 6, Response 200 7)" "[worker 0 0 1 (Response 200 7)]"]
  by (simp add: worker_result_def request_result_def run_concurrent_requests_def)

end
